theory Spec2Isabelle
  imports Main "HOL-Library.AList"
begin

section \<open>Strings and the key mapper (repack.py, lines 15-34)\<close>

type_synonym key = string
type_synonym bucket = string

text \<open>Python's \<open>s.startswith(p)\<close>, \<open>s.endswith(p)\<close> and the slice \<open>s[n:]\<close> (\<open>drop n s\<close>).\<close>

definition startswith :: "string \<Rightarrow> string \<Rightarrow> bool" where
  "startswith s p = (take (length p) s = p)"

definition endswith :: "string \<Rightarrow> string \<Rightarrow> bool" where
  "endswith s p = (length p \<le> length s \<and> drop (length s - length p) s = p)"

definition ensure_no_leading_slash :: "string \<Rightarrow> string" where
  "ensure_no_leading_slash path = (if startswith path ''/'' then drop 1 path else path)"

definition normalize_prefix :: "string \<Rightarrow> string" where
  "normalize_prefix prefix =
     (let p = ensure_no_leading_slash prefix
      in if p \<noteq> [] \<and> \<not> endswith p ''/'' then p @ ''/'' else p)"

definition rel_key :: "key \<Rightarrow> string \<Rightarrow> key" where
  "rel_key full_key prefix =
     (if prefix = [] then full_key
      else if \<not> startswith full_key prefix then full_key
      else drop (length prefix) full_key)"

text \<open>
  The destination key of a task, as \<open>_worker\<close> computes it (lines 171-172):
  \<open>rel = _rel_key(src_key, src_prefix); dst_key = f"{dst_prefix}{rel}"\<close>.
\<close>

definition map_key :: "string \<Rightarrow> string \<Rightarrow> key \<Rightarrow> key" where
  "map_key src_prefix dst_prefix src_key = dst_prefix @ rel_key src_key src_prefix"

section \<open>The object store and the columnar files\<close>

datatype error =
    ClientError string
  | ArrowInvalid string
  | TypeError string
  | ValueError string

type_synonym row = "string list"
type_synonym schema = "(string \<times> string) list"

text \<open>
  A columnar file is its schema and its row groups; decoding it gives the schema and the
  rows of all row groups in order. The layout in row groups is what a rewrite may change.
\<close>

record pfile =
  schema_arrow :: schema
  row_groups :: "row list list"

datatype body = Parquet pfile | Bytes string

definition decode :: "body \<Rightarrow> error + (schema \<times> row list)" where
  "decode b = (case b of
       Parquet pf \<Rightarrow> Inr (schema_arrow pf, concat (row_groups pf))
     | Bytes _ \<Rightarrow> Inl (ArrowInvalid ''not a parquet file''))"

record s3obj =
  body :: body
  content_type :: "string option"

datatype s3op =
    ListObjectsV2 bucket string
  | HeadObject bucket key
  | DownloadFile bucket key
  | UploadFile bucket key
  | CopyObject bucket key string

text \<open>
  The world a run acts on: the objects of the store, as a table from bucket and key to the
  object, and the calls issued to the store so far, oldest first.
\<close>

record world =
  store :: "((bucket \<times> key) \<times> s3obj) list"
  calls :: "s3op list"

definition get_object :: "world \<Rightarrow> bucket \<Rightarrow> key \<Rightarrow> s3obj option" where
  "get_object w b k = map_of (store w) (b, k)"

definition put_object :: "world \<Rightarrow> bucket \<Rightarrow> key \<Rightarrow> s3obj \<Rightarrow> world" where
  "put_object w b k obj = w\<lparr>store := AList.update (b, k) obj (store w)\<rparr>"

type_synonym page = "key list option"

text \<open>
  What the run does not control. \<open>faults n\<close> is the failure, if any, of the \<open>n\<close>-th
  call to the store (any call can fail, and the same call can fail once and succeed
  later); \<open>paginate\<close> is what the store's paginator yields for a bucket and prefix, each
  page with its \<open>Contents\<close> keys or without the entry; \<open>iter_batches\<close> is the codec's
  batch iterator \<open>ParquetFile.iter_batches(batch_size)\<close>; \<open>cpu_count\<close> is
  \<open>os.cpu_count()\<close>; \<open>picks\<close> drives the thread pool's choice of which running task
  finishes next.
\<close>

record env =
  faults :: "nat \<Rightarrow> error option"
  paginate :: "bucket \<Rightarrow> string \<Rightarrow> error + page list"
  iter_batches :: "int \<Rightarrow> pfile \<Rightarrow> error + row list list"
  cpu_count :: "nat option"
  picks :: "nat list"

definition issue :: "env \<Rightarrow> world \<Rightarrow> s3op \<Rightarrow> error option \<times> world" where
  "issue e w opn = (faults e (length (calls w)), w\<lparr>calls := calls w @ [opn]\<rparr>)"

definition head_object :: "env \<Rightarrow> world \<Rightarrow> bucket \<Rightarrow> key \<Rightarrow> (error + s3obj) \<times> world" where
  "head_object e w b k =
     (case issue e w (HeadObject b k) of
        (Some err, w') \<Rightarrow> (Inl err, w')
      | (None, w') \<Rightarrow>
          (case get_object w' b k of
             None \<Rightarrow> (Inl (ClientError ''404''), w')
           | Some obj \<Rightarrow> (Inr obj, w')))"

definition download_file :: "env \<Rightarrow> world \<Rightarrow> bucket \<Rightarrow> key \<Rightarrow> (error + body) \<times> world" where
  "download_file e w b k =
     (case issue e w (DownloadFile b k) of
        (Some err, w') \<Rightarrow> (Inl err, w')
      | (None, w') \<Rightarrow>
          (case get_object w' b k of
             None \<Rightarrow> (Inl (ClientError ''404''), w')
           | Some obj \<Rightarrow> (Inr (body obj), w')))"

definition upload_file :: "env \<Rightarrow> world \<Rightarrow> body \<Rightarrow> bucket \<Rightarrow> key \<Rightarrow> (error + unit) \<times> world" where
  "upload_file e w content b k =
     (case issue e w (UploadFile b k) of
        (Some err, w') \<Rightarrow> (Inl err, w')
      | (None, w') \<Rightarrow>
          (Inr (), put_object w' b k \<lparr>body = content, content_type = None\<rparr>))"

text \<open>
  \<open>copy_object\<close> of an object onto itself with \<open>MetadataDirective="REPLACE"\<close>: the
  body stays, the content type is replaced.
\<close>

definition copy_object :: "env \<Rightarrow> world \<Rightarrow> bucket \<Rightarrow> key \<Rightarrow> string \<Rightarrow> (error + unit) \<times> world" where
  "copy_object e w b k ct =
     (case issue e w (CopyObject b k ct) of
        (Some err, w') \<Rightarrow> (Inl err, w')
      | (None, w') \<Rightarrow>
          (case get_object w' b k of
             None \<Rightarrow> (Inl (ClientError ''404''), w')
           | Some obj \<Rightarrow> (Inr (), put_object w' b k (obj\<lparr>content_type := Some ct\<rparr>))))"

section \<open>The lister (repack.py, lines 37-52)\<close>

text \<open>\<open>key.lower()\<close> on the letters A to Z; every other character is kept.\<close>

definition lower_char :: "char \<Rightarrow> char" where
  "lower_char c =
     (case map_of (zip ''ABCDEFGHIJKLMNOPQRSTUVWXYZ'' ''abcdefghijklmnopqrstuvwxyz'') c of
        None \<Rightarrow> c
      | Some l \<Rightarrow> l)"

definition lower :: "string \<Rightarrow> string" where
  "lower s = map lower_char s"

definition file_extensions :: "string list" where
  "file_extensions = [''.parquet'', ''.parq'']"

definition page_keys :: "string list \<Rightarrow> page \<Rightarrow> key list" where
  "page_keys exts pg =
     filter (\<lambda>k. list_ex (\<lambda>ext. endswith (lower k) ext) exts)
       (case pg of None \<Rightarrow> [] | Some ks \<Rightarrow> ks)"

definition list_parquet_keys ::
  "env \<Rightarrow> world \<Rightarrow> bucket \<Rightarrow> string \<Rightarrow> string list \<Rightarrow> (error + key list) \<times> world" where
  "list_parquet_keys e w bkt prefix exts =
     (let prefix = normalize_prefix prefix;
          w' = w\<lparr>calls := calls w @ [ListObjectsV2 bkt prefix]\<rparr>
      in case paginate e bkt prefix of
           Inl err \<Rightarrow> (Inl err, w')
         | Inr pages \<Rightarrow> (Inr (concat (map (page_keys exts) pages)), w'))"

section \<open>The single-object rewriter (repack.py, lines 55-101)\<close>

text \<open>
  \<open>boto3.client("s3")\<close> and \<open>S3FileSystem(region=None)\<close> build local handles and are
  taken to succeed; every call they make to the store can fail. The two staging files of
  a rewrite are local to it: they are the values \<open>src_tmp\<close> and the written file below,
  and the \<open>finally\<close> block that deletes them changes neither the result nor the store.
  An error of the iterator on the way leaves batches in the local file only, which is
  never uploaded then, so the iterator either gives all its batches or an error.
\<close>

definition ParquetFile :: "body \<Rightarrow> error + pfile" where
  "ParquetFile b = (case b of
       Parquet pf \<Rightarrow> Inr pf
     | Bytes _ \<Rightarrow> Inl (ArrowInvalid ''not a parquet file''))"

text \<open>
  The writer \<open>pq.ParquetWriter(dst_tmp_path, schema)\<close>: it holds the schema it was opened
  with and the batches written so far, each stored as a row group; \<open>close\<close> finalises the
  file.
\<close>

definition ParquetWriter :: "schema \<Rightarrow> pfile" where
  "ParquetWriter sch = \<lparr>schema_arrow = sch, row_groups = []\<rparr>"

definition write_batch :: "pfile \<Rightarrow> row list \<Rightarrow> pfile" where
  "write_batch wr batch = wr\<lparr>row_groups := row_groups wr @ [batch]\<rparr>"

fun write_batches :: "pfile \<Rightarrow> row list list \<Rightarrow> pfile" where
  "write_batches wr [] = wr"
| "write_batches wr (batch # rest) = write_batches (write_batch wr batch) rest"

definition rewrite_repack_streaming ::
  "env \<Rightarrow> world \<Rightarrow> bucket \<Rightarrow> key \<Rightarrow> bucket \<Rightarrow> key \<Rightarrow> int \<Rightarrow> (error + unit) \<times> world" where
  "rewrite_repack_streaming e w src_bkt src_key dst_bkt dst_key batch_sz =
     (case download_file e w src_bkt src_key of
        (Inl err, w1) \<Rightarrow> (Inl err, w1)
      | (Inr src_tmp, w1) \<Rightarrow>
          (case ParquetFile src_tmp of
             Inl err \<Rightarrow> (Inl err, w1)
           | Inr pf \<Rightarrow>
               (let writer = ParquetWriter (schema_arrow pf)
                in case iter_batches e batch_sz pf of
                     Inl err \<Rightarrow> (Inl err, w1)
                   | Inr batches \<Rightarrow>
                       upload_file e w1 (Parquet (write_batches writer batches))
                         dst_bkt dst_key)))"

section \<open>The existence gate and the metadata copy (repack.py, lines 104-140)\<close>

definition should_skip_existing ::
  "env \<Rightarrow> world \<Rightarrow> bucket \<Rightarrow> key \<Rightarrow> bool \<Rightarrow> bool \<times> world" where
  "should_skip_existing e w bkt k skip =
     (if \<not> skip then (False, w)
      else case head_object e w bkt k of
             (Inr _, w') \<Rightarrow> (True, w')
           | (Inl _, w') \<Rightarrow> (False, w'))"

definition copy_metadata_if_available ::
  "env \<Rightarrow> world \<Rightarrow> bucket \<Rightarrow> key \<Rightarrow> bucket \<Rightarrow> key \<Rightarrow> world" where
  "copy_metadata_if_available e w src_bkt src_key dst_bkt dst_key =
     (case head_object e w src_bkt src_key of
        (Inl _, w1) \<Rightarrow> w1
      | (Inr hd_obj, w1) \<Rightarrow>
          (let ct = (case content_type hd_obj of
                       None \<Rightarrow> ''application/octet-stream''
                     | Some c \<Rightarrow> if c = [] then ''application/octet-stream'' else c)
           in snd (copy_object e w1 dst_bkt dst_key ct)))"

section \<open>The worker and the counters (repack.py, lines 162-222)\<close>

datatype event =
    NothingToDo
  | Starting int int int
  | FileStart key key
  | FileDone key key
  | Progress int int
  | TaskError key key error
  | Finished int int
  | Completed int int

text \<open>
  The state the tasks of a run share: the world, the two counters (updated under
  \<open>ok_lock\<close>) and the lines printed so far, without their timings.
\<close>

record run_state =
  world :: world
  ok_counter :: int
  err_counter :: int
  out :: "event list"

text \<open>The variables of \<open>repack_prefix\<close> that \<open>_worker\<close> closes over.\<close>

record cfg =
  src_bucket :: bucket
  src_prefix :: string
  dst_bucket :: bucket
  dst_prefix :: string
  batch_size :: int
  skip_existing :: bool
  total :: int
  progress_step :: int

definition emit :: "event \<Rightarrow> run_state \<Rightarrow> run_state" where
  "emit ev st = st\<lparr>out := out st @ [ev]\<rparr>"

text \<open>
  The body of each \<open>with ok_lock\<close> block after the increment: a progress line every
  \<open>progress_step\<close> processed tasks and at the last one.
\<close>

definition report_progress :: "cfg \<Rightarrow> run_state \<Rightarrow> run_state" where
  "report_progress c st =
     (let processed = ok_counter st + err_counter st
      in if processed mod progress_step c = 0 \<or> processed = total c
         then emit (Progress processed (total c)) st else st)"

text \<open>
  Python binds the keyword arguments of a call to the parameters of the function before
  its body runs, and raises \<open>TypeError\<close> for a keyword that names no parameter. The
  parameters are those of the \<open>def\<close> at lines 55-61; the keywords are those of the call in
  \<open>_worker\<close> at lines 189-196.
\<close>

definition rewrite_repack_streaming_params :: "string list" where
  "rewrite_repack_streaming_params =
     [''src_bucket'', ''src_key'', ''dst_bucket'', ''dst_key'', ''batch_size'']"

definition worker_call_keywords :: "string list" where
  "worker_call_keywords =
     [''s3fs'', ''src_bucket'', ''src_key'', ''dst_bucket'', ''dst_key'', ''batch_size'']"

definition call_rewrite_repack_streaming ::
  "string list \<Rightarrow> env \<Rightarrow> world \<Rightarrow> bucket \<Rightarrow> key \<Rightarrow> bucket \<Rightarrow> key \<Rightarrow> int
     \<Rightarrow> (error + unit) \<times> world" where
  "call_rewrite_repack_streaming kws e w src_bkt src_key dst_bkt dst_key batch_sz =
     (case find (\<lambda>kw. kw \<notin> set rewrite_repack_streaming_params) kws of
        Some kw \<Rightarrow>
          (Inl (TypeError (''rewrite_repack_streaming() got an unexpected keyword argument ''
                            @ kw)), w)
      | None \<Rightarrow> rewrite_repack_streaming e w src_bkt src_key dst_bkt dst_key batch_sz)"

definition worker :: "cfg \<Rightarrow> env \<Rightarrow> key \<Rightarrow> run_state \<Rightarrow> run_state" where
  "worker c e src_key st =
     (let dst_key = map_key (src_prefix c) (dst_prefix c) src_key;
          st0 = emit (FileStart src_key dst_key) st
      in case should_skip_existing e (world st0) (dst_bucket c) dst_key (skip_existing c) of
           (True, w1) \<Rightarrow>
             report_progress c (st0\<lparr>world := w1, ok_counter := ok_counter st0 + 1\<rparr>)
         | (False, w1) \<Rightarrow>
             (case call_rewrite_repack_streaming worker_call_keywords e w1
                     (src_bucket c) src_key (dst_bucket c) dst_key (batch_size c) of
                (Inr _, w2) \<Rightarrow>
                  (let w3 = copy_metadata_if_available e w2
                              (src_bucket c) src_key (dst_bucket c) dst_key;
                       st3 = emit (FileDone src_key dst_key) (st0\<lparr>world := w3\<rparr>)
                   in report_progress c (st3\<lparr>ok_counter := ok_counter st3 + 1\<rparr>))
              | (Inl err, w2) \<Rightarrow>
                  emit (TaskError src_key dst_key err)
                    (report_progress c
                       (st0\<lparr>world := w2, err_counter := err_counter st0 + 1\<rparr>))))"

section \<open>The pool and the orchestrator (repack.py, lines 143-249)\<close>

text \<open>
  \<open>executor.map(_worker, keys)\<close> on a pool of \<open>n_workers\<close> threads: the tasks start in
  the order of \<open>keys\<close>, at most \<open>n_workers\<close> of them are running at a time, and any
  running task may be the next to take the lock and finish. The tasks still to finish are
  kept in start order, so the running ones are the first \<open>n_workers\<close> of them; the next
  number of \<open>picks\<close> chooses among these. Each task is taken as one step.
\<close>

definition next_pick :: "nat \<Rightarrow> nat list \<Rightarrow> nat \<Rightarrow> nat" where
  "next_pick n_workers ps n_pending =
     (case ps of [] \<Rightarrow> 0 | p # _ \<Rightarrow> p mod (max 1 (min n_workers n_pending)))"

definition remove_nth :: "nat \<Rightarrow> 'a list \<Rightarrow> 'a list" where
  "remove_nth i xs = take i xs @ drop (Suc i) xs"

function run_pool ::
  "cfg \<Rightarrow> env \<Rightarrow> nat \<Rightarrow> nat list \<Rightarrow> key list \<Rightarrow> run_state \<Rightarrow> run_state" where
  "run_pool c e n_workers ps [] st = st"
| "run_pool c e n_workers ps (k # ks) st =
     (let i = next_pick n_workers ps (length (k # ks))
      in run_pool c e n_workers (tl ps) (remove_nth i (k # ks))
           (worker c e ((k # ks) ! i) st))"
  by pat_completeness auto

lemma next_pick_less: "0 < n \<Longrightarrow> next_pick n_workers ps n < n"
  by (cases ps) (auto simp: next_pick_def max_def min_def intro: order_less_le_trans [OF mod_less_divisor])

lemma length_remove_nth: "i < length xs \<Longrightarrow> length (remove_nth i xs) < length xs"
  by (simp add: remove_nth_def)

termination run_pool
proof (relation "measure (\<lambda>(c, e, n_workers, ps, ks, st). length ks)")
  show "wf (measure (\<lambda>(c, e, n_workers, ps, ks, st). length ks))"
    by simp
next
  fix c :: cfg and e :: env and n_workers :: nat and ps :: "nat list"
    and k :: key and ks :: "key list" and st :: run_state and i :: nat
  assume i: "i = next_pick n_workers ps (length (k # ks))"
  have "i < length (k # ks)"
    unfolding i by (rule next_pick_less) simp
  then have "length (remove_nth i (k # ks)) < length (k # ks)"
    by (rule length_remove_nth)
  then show "((c, e, n_workers, tl ps, remove_nth i (k # ks), worker c e ((k # ks) ! i) st),
              (c, e, n_workers, ps, k # ks, st))
             \<in> measure (\<lambda>(c, e, n_workers, ps, ks, st). length ks)"
    by simp
qed

text \<open>
  The worker count (lines 224-229): \<open>max_workers is None or max_workers <= 0\<close> selects
  \<open>min(32, 4 * (cpu_count() or 4))\<close>.
\<close>

definition default_workers :: "nat option \<Rightarrow> int" where
  "default_workers cpus_opt =
     (let cpus = (case cpus_opt of None \<Rightarrow> 4 | Some n \<Rightarrow> if n = 0 then 4 else int n)
      in min 32 (4 * cpus))"

definition effective_workers :: "int option \<Rightarrow> nat option \<Rightarrow> int" where
  "effective_workers max_workers cpus_opt =
     (case max_workers of
        None \<Rightarrow> default_workers cpus_opt
      | Some m \<Rightarrow> if m \<le> 0 then default_workers cpus_opt else m)"

definition repack_prefix ::
  "env \<Rightarrow> world \<Rightarrow> bucket \<Rightarrow> string \<Rightarrow> bucket \<Rightarrow> string \<Rightarrow> int option \<Rightarrow> int \<Rightarrow> bool
     \<Rightarrow> error + ((int \<times> int) \<times> run_state)" where
  "repack_prefix e w src_bkt src_pfx dst_bkt dst_pfx max_workers batch_sz skip =
     (let src_pfx = normalize_prefix src_pfx;
          dst_pfx = normalize_prefix dst_pfx
      in case list_parquet_keys e w src_bkt src_pfx file_extensions of
           (Inl err, w') \<Rightarrow> Inl err
         | (Inr keys, w') \<Rightarrow>
             (let tot = int (length keys);
                  st0 = \<lparr>world = w', ok_counter = 0, err_counter = 0, out = []\<rparr>
              in if tot = 0 then Inr ((0, 0), emit NothingToDo st0)
                 else
                   (let c = \<lparr>src_bucket = src_bkt, src_prefix = src_pfx,
                             dst_bucket = dst_bkt, dst_prefix = dst_pfx,
                             batch_size = batch_sz, skip_existing = skip,
                             total = tot, progress_step = max 1 (tot div 10)\<rparr>;
                        n_workers = effective_workers max_workers (cpu_count e);
                        st1 = emit (Starting tot n_workers batch_sz) st0;
                        st2 = run_pool c e (nat n_workers) (picks e) keys st1
                    in Inr ((ok_counter st2, err_counter st2),
                            emit (Finished (ok_counter st2) (err_counter st2)) st2))))"

section \<open>The command line (__main__.py)\<close>

definition parse_s3_uri :: "string \<Rightarrow> error + (bucket \<times> string)" where
  "parse_s3_uri uri =
     (if \<not> startswith uri ''s3://'' then Inl (ValueError ''URI must start with s3://'')
      else (let rest = drop 5 uri;
                first = takeWhile (\<lambda>ch. ch \<noteq> CHR ''/'') rest;
                after = dropWhile (\<lambda>ch. ch \<noteq> CHR ''/'') rest
            in if after = [] then Inr (first, []) else Inr (first, tl after)))"

text \<open>The namespace \<open>parser.parse_args()\<close> returns.\<close>

record args =
  arg_src :: string
  arg_dst :: string
  arg_batch_size :: int
  arg_workers :: int
  arg_no_skip_existing :: bool

definition main :: "env \<Rightarrow> world \<Rightarrow> args \<Rightarrow> error + (int \<times> run_state)" where
  "main e w a =
     (case parse_s3_uri (arg_src a) of
        Inl err \<Rightarrow> Inl err
      | Inr (src_bkt, src_pfx) \<Rightarrow>
          (case parse_s3_uri (arg_dst a) of
             Inl err \<Rightarrow> Inl err
           | Inr (dst_bkt, dst_pfx) \<Rightarrow>
               (case repack_prefix e w src_bkt src_pfx dst_bkt dst_pfx
                       (Some (arg_workers a)) (arg_batch_size a) (\<not> arg_no_skip_existing a) of
                  Inl err \<Rightarrow> Inl err
                | Inr ((ok, err), st) \<Rightarrow>
                    Inr (if err = 0 then 0 else 2, emit (Completed ok err) st))))"

section \<open>The outcome of a task\<close>

text \<open>
  Which of its three counter updates \<open>_worker\<close> reaches for a task in a given state:
  the one of the skip branch (lines 176-178), the one after the rewrite (lines 201-202)
  or the one of the \<open>except\<close> branch (lines 211-213), with the exception caught.
\<close>

datatype outcome = Skipped | Succeeded | Failed error

definition task_outcome :: "cfg \<Rightarrow> env \<Rightarrow> key \<Rightarrow> run_state \<Rightarrow> outcome" where
  "task_outcome c e src_key st =
     (let dst_key = map_key (src_prefix c) (dst_prefix c) src_key
      in case should_skip_existing e (world st) (dst_bucket c) dst_key (skip_existing c) of
           (True, w1) \<Rightarrow> Skipped
         | (False, w1) \<Rightarrow>
             (case call_rewrite_repack_streaming worker_call_keywords e w1
                     (src_bucket c) src_key (dst_bucket c) dst_key (batch_size c) of
                (Inr _, w2) \<Rightarrow> Succeeded
              | (Inl err, w2) \<Rightarrow> Failed err))"

text \<open>
  The outcomes of the tasks of a pool, in the order the tasks finish: the recursion is
  that of \<open>run_pool\<close>, and each task is looked at in the state it runs in.
\<close>

function outcomes ::
  "cfg \<Rightarrow> env \<Rightarrow> nat \<Rightarrow> nat list \<Rightarrow> key list \<Rightarrow> run_state \<Rightarrow> outcome list" where
  "outcomes c e n_workers ps [] st = []"
| "outcomes c e n_workers ps (k # ks) st =
     (let i = next_pick n_workers ps (length (k # ks))
      in task_outcome c e ((k # ks) ! i) st
         # outcomes c e n_workers (tl ps) (remove_nth i (k # ks))
             (worker c e ((k # ks) ! i) st))"
  by pat_completeness auto

termination outcomes
proof (relation "measure (\<lambda>(c, e, n_workers, ps, ks, st). length ks)")
  show "wf (measure (\<lambda>(c, e, n_workers, ps, ks, st). length ks))"
    by simp
next
  fix c :: cfg and e :: env and n_workers :: nat and ps :: "nat list"
    and k :: key and ks :: "key list" and st :: run_state and i :: nat
  assume i: "i = next_pick n_workers ps (length (k # ks))"
  have "i < length (k # ks)"
    unfolding i by (rule next_pick_less) simp
  then have "length (remove_nth i (k # ks)) < length (k # ks)"
    by (rule length_remove_nth)
  then show "((c, e, n_workers, tl ps, remove_nth i (k # ks), worker c e ((k # ks) ! i) st),
              (c, e, n_workers, ps, k # ks, st))
             \<in> measure (\<lambda>(c, e, n_workers, ps, ks, st). length ks)"
    by simp
qed

text \<open>
  The outcomes of the tasks of a run of \<open>repack_prefix\<close>: those of the pool it starts,
  on the keys, the closure variables and the state it starts the pool with; none when the
  listing fails or is empty.
\<close>

definition run_outcomes ::
  "env \<Rightarrow> world \<Rightarrow> bucket \<Rightarrow> string \<Rightarrow> bucket \<Rightarrow> string \<Rightarrow> int option \<Rightarrow> int \<Rightarrow> bool
     \<Rightarrow> outcome list" where
  "run_outcomes e w src_bkt src_pfx dst_bkt dst_pfx max_workers batch_sz skip =
     (let src_pfx = normalize_prefix src_pfx;
          dst_pfx = normalize_prefix dst_pfx
      in case list_parquet_keys e w src_bkt src_pfx file_extensions of
           (Inl err, w') \<Rightarrow> []
         | (Inr keys, w') \<Rightarrow>
             (let tot = int (length keys);
                  st0 = \<lparr>world = w', ok_counter = 0, err_counter = 0, out = []\<rparr>
              in if tot = 0 then []
                 else
                   (let c = \<lparr>src_bucket = src_bkt, src_prefix = src_pfx,
                             dst_bucket = dst_bkt, dst_prefix = dst_pfx,
                             batch_size = batch_sz, skip_existing = skip,
                             total = tot, progress_step = max 1 (tot div 10)\<rparr>;
                        n_workers = effective_workers max_workers (cpu_count e);
                        st1 = emit (Starting tot n_workers batch_sz) st0
                    in outcomes c e (nat n_workers) (picks e) keys st1)))"

section \<open>A small store for the examples\<close>

text \<open>
  A codec iterator for the examples: the rows of the file in order, cut into batches of
  \<open>n\<close> rows, the last one shorter.
\<close>

function chunk :: "nat \<Rightarrow> 'a list \<Rightarrow> 'a list list" where
  "chunk n xs = (if n = 0 \<or> xs = [] then [] else take n xs # chunk n (drop n xs))"
  by pat_completeness auto
termination
  by (relation "measure (\<lambda>(n, xs). length xs)") auto

declare chunk.simps [simp del]

definition demo_file :: pfile where
  "demo_file =
     \<lparr>schema_arrow = [(''id'', ''int64''), (''name'', ''string'')],
      row_groups = [[[''1'', ''a''], [''2'', ''b''], [''3'', ''c'']], [[''4'', ''d'']]]\<rparr>"

definition demo_world :: world where
  "demo_world =
     \<lparr>store =
        [((''in'', ''src/a.parquet''),
            \<lparr>body = Parquet demo_file, content_type = Some ''application/x-parquet''\<rparr>),
         ((''in'', ''src/B.PARQ''), \<lparr>body = Parquet demo_file, content_type = None\<rparr>),
         ((''in'', ''src/readme.txt''), \<lparr>body = Bytes ''hello'', content_type = None\<rparr>),
         ((''out'', ''dst/B.PARQ''), \<lparr>body = Parquet demo_file, content_type = None\<rparr>)],
      calls = []\<rparr>"

definition demo_env :: env where
  "demo_env =
     \<lparr>faults = (\<lambda>n. None),
      paginate = (\<lambda>b p. if b = ''in'' \<and> p = ''src/''
                          then Inr [Some [''src/a.parquet'', ''src/readme.txt''], None,
                                    Some [''src/B.PARQ'']]
                          else Inr []),
      iter_batches = (\<lambda>n pf. if n \<le> 0 then Inl (ValueError ''batch_size'')
                              else Inr (chunk (nat n) (concat (row_groups pf)))),
      cpu_count = Some 2,
      picks = [1, 0]\<rparr>"

definition demo_cfg :: cfg where
  "demo_cfg =
     \<lparr>src_bucket = ''in'', src_prefix = ''src/'', dst_bucket = ''out'', dst_prefix = ''dst/'',
      batch_size = 2, skip_existing = True, total = 2, progress_step = 1\<rparr>"

definition demo_state :: run_state where
  "demo_state = \<lparr>world = demo_world, ok_counter = 0, err_counter = 0, out = []\<rparr>"

definition demo_args :: args where
  "demo_args =
     \<lparr>arg_src = ''s3://in/src'', arg_dst = ''s3://out/dst'', arg_batch_size = 2,
      arg_workers = 0, arg_no_skip_existing = False\<rparr>"

section \<open>Properties of the key mapper\<close>

lemma rel_key_under_prefix: "startswith k p \<Longrightarrow> rel_key k p = drop (length p) k"
  by (simp add: rel_key_def)

lemma startswith_split: "startswith k p \<Longrightarrow> k = p @ drop (length p) k"
  unfolding startswith_def by (metis append_take_drop_id)

lemma map_key_scenario:
  "map_key (normalize_prefix ''src'') (normalize_prefix ''/dst2/'') ''src/sub/file.parquet''
     = ''dst2/sub/file.parquet''"
  by (simp add: map_key_def rel_key_def normalize_prefix_def ensure_no_leading_slash_def
        startswith_def endswith_def)

text \<open>
  C6. For any source prefix and destination prefix, two distinct source keys that both
  start with the source prefix are mapped to distinct destination keys.
\<close>

theorem map_key_injective_under_prefix:
  "startswith k1 sp \<Longrightarrow> startswith k2 sp \<Longrightarrow> k1 \<noteq> k2
     \<Longrightarrow> map_key sp dp k1 \<noteq> map_key sp dp k2"
proof
  assume p1: "startswith k1 sp" and p2: "startswith k2 sp" and ne: "k1 \<noteq> k2"
    and eq: "map_key sp dp k1 = map_key sp dp k2"
  from eq have "drop (length sp) k1 = drop (length sp) k2"
    by (simp add: map_key_def rel_key_under_prefix p1 p2)
  with startswith_split [OF p1] startswith_split [OF p2] have "k1 = k2"
    by metis
  with ne show False by simp
qed

theorem map_key_injective_under_prefix_witness:
  "startswith ''src/a.parquet'' ''src/'' \<and> startswith ''src/b.parquet'' ''src/''
   \<and> ''src/a.parquet'' \<noteq> ''src/b.parquet''
   \<and> map_key ''src/'' ''dst2/'' ''src/a.parquet'' \<noteq> map_key ''src/'' ''dst2/'' ''src/b.parquet''"
proof -
  have a: "startswith ''src/a.parquet'' ''src/''" by (simp add: startswith_def)
  have b: "startswith ''src/b.parquet'' ''src/''" by (simp add: startswith_def)
  have c: "''src/a.parquet'' \<noteq> ''src/b.parquet''" by simp
  from map_key_injective_under_prefix [OF a b c, of "''dst2/''"] a b c show ?thesis by simp
qed

text \<open>
  C10. Over all source keys the mapping is not injective: there are a prefix pair and two
  distinct source keys, one that starts with the source prefix and one that does not (and
  is passed through whole by \<open>rel_key\<close>), with the same destination key.
\<close>

theorem map_key_not_injective_outside_prefix:
  "\<exists>sp dp k1 k2. k1 \<noteq> k2 \<and> startswith k1 sp \<and> \<not> startswith k2 sp
      \<and> map_key sp dp k1 = map_key sp dp k2"
proof -
  have "''src/x.parquet'' \<noteq> ''x.parquet'' \<and> startswith ''src/x.parquet'' ''src/''
        \<and> \<not> startswith ''x.parquet'' ''src/''
        \<and> map_key ''src/'' ''dst/'' ''src/x.parquet'' = map_key ''src/'' ''dst/'' ''x.parquet''"
    by (simp add: map_key_def rel_key_def startswith_def)
  then show ?thesis
    by (intro exI [of _ "''src/''"] exI [of _ "''dst/''"] exI [of _ "''src/x.parquet''"]
          exI [of _ "''x.parquet''"])
qed

section \<open>Properties of the worker count\<close>

text \<open>
  C7. When the caller's worker count is absent or not positive, the effective count is
  \<open>min 32 (4 * n)\<close> for \<open>n\<close> available processing units, and \<open>min 32 (4 * 4)\<close> when the
  number of units is not known; a positive count of the caller is used as it is.
\<close>

theorem effective_workers_cases:
  "(mw = None \<or> (\<exists>n. mw = Some n \<and> n \<le> 0) \<longrightarrow>
      (\<forall>n. cc = Some n \<and> 0 < n \<longrightarrow> effective_workers mw cc = min 32 (4 * int n))
      \<and> (cc = None \<longrightarrow> effective_workers mw cc = min 32 (4 * 4)))
   \<and> (\<forall>n. mw = Some n \<and> 0 < n \<longrightarrow> effective_workers mw cc = n)"
  by (auto simp: effective_workers_def default_workers_def)

theorem effective_workers_cases_witness:
  "effective_workers (Some 0) (Some 2) = 8 \<and> effective_workers None (Some 64) = 32
   \<and> effective_workers (Some (- 3)) None = 16 \<and> effective_workers (Some 5) (Some 2) = 5"
  using effective_workers_cases [of "Some 0" "Some 2"] effective_workers_cases [of None "Some 64"]
    effective_workers_cases [of "Some (- 3)" None] effective_workers_cases [of "Some 5" "Some 2"]
  by simp

section \<open>Properties of the existence gate\<close>

text \<open>
  C4. The existence gate answers true exactly when \<open>skip_existing\<close> is set and the probe
  \<open>head_object\<close> returns; the probe returns exactly when the call does not fail and the
  object is there. So a probe that fails, for a missing object or for any other reason,
  gives false.
\<close>

theorem should_skip_existing_iff:
  "fst (should_skip_existing e w b k skip)
     = (skip \<and> (\<exists>obj. fst (head_object e w b k) = Inr obj))
   \<and> fst (should_skip_existing e w b k skip)
     = (skip \<and> faults e (length (calls w)) = None \<and> (\<exists>obj. get_object w b k = Some obj))"
  by (auto simp: should_skip_existing_def head_object_def issue_def get_object_def
        split: option.splits)

section \<open>Properties of the counters\<close>

lemma emit_fields [simp]:
  "world (emit ev st) = world st" "ok_counter (emit ev st) = ok_counter st"
  "err_counter (emit ev st) = err_counter st" "out (emit ev st) = out st @ [ev]"
  by (simp_all add: emit_def)

lemma report_progress_fields [simp]:
  "world (report_progress c st) = world st" "ok_counter (report_progress c st) = ok_counter st"
  "err_counter (report_progress c st) = err_counter st"
  by (simp_all add: report_progress_def Let_def)

lemma worker_one_counter:
  "(ok_counter (worker c e k st) = ok_counter st + 1 \<and> err_counter (worker c e k st) = err_counter st)
   \<or> (ok_counter (worker c e k st) = ok_counter st \<and> err_counter (worker c e k st) = err_counter st + 1)"
  by (simp add: worker_def Let_def split: prod.splits bool.splits sum.splits)

lemma worker_sum:
  "ok_counter (worker c e k st) + err_counter (worker c e k st) = ok_counter st + err_counter st + 1"
  using worker_one_counter [of c e k st] by auto

lemma worker_mono:
  "ok_counter st \<le> ok_counter (worker c e k st) \<and> err_counter st \<le> err_counter (worker c e k st)"
  using worker_one_counter [of c e k st] by auto

lemma length_remove_nth_eq: "i < length xs \<Longrightarrow> Suc (length (remove_nth i xs)) = length xs"
  by (simp add: remove_nth_def)

lemma run_pool_sum:
  "ok_counter (run_pool c e n ps ks st) + err_counter (run_pool c e n ps ks st)
     = ok_counter st + err_counter st + int (length ks)"
proof (induction c e n ps ks st rule: run_pool.induct)
  case (1 c e n ps st)
  show ?case by simp
next
  case (2 c e n ps k ks st)
  let ?i = "next_pick n ps (length (k # ks))"
  have i: "?i < length (k # ks)" by (rule next_pick_less) simp
  have len: "int (length (remove_nth ?i (k # ks))) = int (length ks)"
    using length_remove_nth_eq [OF i] by simp
  have "ok_counter (run_pool c e n ps (k # ks) st) + err_counter (run_pool c e n ps (k # ks) st)
        = ok_counter (worker c e ((k # ks) ! ?i) st) + err_counter (worker c e ((k # ks) ! ?i) st)
          + int (length (remove_nth ?i (k # ks)))"
    using "2.IH" [OF refl] by (simp add: Let_def)
  also have "\<dots> = ok_counter st + err_counter st + 1 + int (length ks)"
    by (simp only: worker_sum len)
  finally show ?case by simp
qed

lemma run_pool_mono:
  "ok_counter st \<le> ok_counter (run_pool c e n ps ks st)
   \<and> err_counter st \<le> err_counter (run_pool c e n ps ks st)"
proof (induction c e n ps ks st rule: run_pool.induct)
  case (1 c e n ps st)
  show ?case by simp
next
  case (2 c e n ps k ks st)
  let ?i = "next_pick n ps (length (k # ks))"
  from "2.IH" [OF refl] worker_mono [of st c e "(k # ks) ! ?i"]
  show ?case by (auto simp: Let_def)
qed

text \<open>
  C2. Whenever the lister returns a list of keys, \<open>repack_prefix\<close> returns a pair
  \<open>(succeeded, failed)\<close> with \<open>succeeded + failed\<close> the number of keys, whatever the
  store holds, whichever calls fail and in whatever order the pool finishes the tasks:
  each task adds one to exactly one counter (\<open>worker_one_counter\<close>).
\<close>

theorem repack_prefix_counts_total:
  assumes "fst (list_parquet_keys e w sb (normalize_prefix sp) file_extensions) = Inr keys"
  shows "\<exists>ok err st. repack_prefix e w sb sp db dp mw n skip = Inr ((ok, err), st)
           \<and> ok + err = int (length keys) \<and> 0 \<le> ok \<and> 0 \<le> err"
proof -
  obtain w' where lk:
      "list_parquet_keys e w sb (normalize_prefix sp) file_extensions = (Inr keys, w')"
    using assms by (cases "list_parquet_keys e w sb (normalize_prefix sp) file_extensions") simp
  show ?thesis
  proof (cases "keys = []")
    case True
    then show ?thesis
      by (simp add: repack_prefix_def Let_def lk)
  next
    case False
    define c where "c = \<lparr>src_bucket = sb, src_prefix = normalize_prefix sp,
        dst_bucket = db, dst_prefix = normalize_prefix dp, batch_size = n, skip_existing = skip,
        total = int (length keys), progress_step = max 1 (int (length keys) div 10)\<rparr>"
    define st1 where "st1 = emit (Starting (int (length keys))
        (effective_workers mw (cpu_count e)) n)
        \<lparr>world = w', ok_counter = 0, err_counter = 0, out = []\<rparr>"
    define st2 where
      "st2 = run_pool c e (nat (effective_workers mw (cpu_count e))) (picks e) keys st1"
    have run: "repack_prefix e w sb sp db dp mw n skip
        = Inr ((ok_counter st2, err_counter st2),
               emit (Finished (ok_counter st2) (err_counter st2)) st2)"
      using False by (simp add: repack_prefix_def Let_def lk c_def st1_def st2_def)
    have start: "ok_counter st1 = 0" "err_counter st1 = 0"
      by (simp_all add: st1_def)
    have total: "ok_counter st2 + err_counter st2 = int (length keys)"
      unfolding st2_def by (simp add: run_pool_sum start)
    have nonneg: "0 \<le> ok_counter st2" "0 \<le> err_counter st2"
      using run_pool_mono [of st1 c e "nat (effective_workers mw (cpu_count e))" "picks e" keys]
      by (simp_all add: st2_def start)
    from run total nonneg show ?thesis by blast
  qed
qed

theorem repack_prefix_counts_total_witness:
  "fst (list_parquet_keys demo_env demo_world ''in'' (normalize_prefix ''src'') file_extensions)
     = Inr [''src/a.parquet'', ''src/B.PARQ'']
   \<and> (\<exists>ok err st. repack_prefix demo_env demo_world ''in'' ''src'' ''out'' ''dst'' None 2 True
                      = Inr ((ok, err), st)
          \<and> ok + err = int (length [''src/a.parquet'', ''src/B.PARQ'']) \<and> 0 \<le> ok \<and> 0 \<le> err)"
proof -
  have h: "fst (list_parquet_keys demo_env demo_world ''in'' (normalize_prefix ''src'')
             file_extensions) = Inr [''src/a.parquet'', ''src/B.PARQ'']"
    by code_simp
  from h repack_prefix_counts_total [OF h] show ?thesis by (rule conjI)
qed

lemma demo_run_counts:
  "map_sum id fst (repack_prefix demo_env demo_world ''in'' ''src'' ''out'' ''dst'' None 2 True)
     = Inr (1, 1)"
  by code_simp

section \<open>Properties of the worker\<close>

lemma call_with_worker_keywords:
  "call_rewrite_repack_streaming worker_call_keywords e w sb sk db dk n
     = (Inl (TypeError ''rewrite_repack_streaming() got an unexpected keyword argument s3fs''), w)"
  by (simp add: call_rewrite_repack_streaming_def worker_call_keywords_def
        rewrite_repack_streaming_params_def)

lemma call_with_declared_parameters:
  "call_rewrite_repack_streaming rewrite_repack_streaming_params e w sb sk db dk n
     = rewrite_repack_streaming e w sb sk db dk n"
  by (simp add: call_rewrite_repack_streaming_def rewrite_repack_streaming_params_def)

lemma should_skip_existing_store:
  "store (snd (should_skip_existing e w b k skip)) = store w"
  by (simp add: should_skip_existing_def head_object_def issue_def
        split: prod.splits option.splits sum.splits)

lemma worker_not_skipped:
  assumes "\<not> fst (should_skip_existing e (world st) (dst_bucket c)
                    (map_key (src_prefix c) (dst_prefix c) k) (skip_existing c))"
  shows "ok_counter (worker c e k st) = ok_counter st"
    and "err_counter (worker c e k st) = err_counter st + 1"
    and "store (world (worker c e k st)) = store (world st)"
  using assms should_skip_existing_store [of e "world st" "dst_bucket c"
      "map_key (src_prefix c) (dst_prefix c) k" "skip_existing c"]
  by (auto simp: worker_def Let_def call_with_worker_keywords split: prod.splits bool.splits)

lemma worker_skip_path:
  assumes "skip_existing c"
    and "fst (should_skip_existing e (world st) (dst_bucket c)
               (map_key (src_prefix c) (dst_prefix c) k) True)"
  shows "ok_counter (worker c e k st) = ok_counter st + 1
       \<and> err_counter (worker c e k st) = err_counter st
       \<and> store (world (worker c e k st)) = store (world st)
       \<and> calls (world (worker c e k st))
           = calls (world st) @ [HeadObject (dst_bucket c) (map_key (src_prefix c) (dst_prefix c) k)]
       \<and> out (worker c e k st)
           = out (report_progress c
                   (st\<lparr>ok_counter := ok_counter st + 1,
                       out := out st @ [FileStart k (map_key (src_prefix c) (dst_prefix c) k)]\<rparr>))"
  using assms
  by (auto simp: worker_def Let_def should_skip_existing_def head_object_def issue_def emit_def
        report_progress_def split: prod.splits option.splits sum.splits if_splits)

lemma task_outcome_skipped_iff:
  "(task_outcome c e k st = Skipped)
     = fst (should_skip_existing e (world st) (dst_bucket c)
              (map_key (src_prefix c) (dst_prefix c) k) (skip_existing c))"
  by (auto simp: task_outcome_def Let_def split: prod.splits bool.splits sum.splits)

lemma worker_ok_by_outcome:
  "ok_counter (worker c e k st)
     = ok_counter st + int (count_list [task_outcome c e k st] Skipped)
       + int (count_list [task_outcome c e k st] Succeeded)"
  by (auto simp: worker_def task_outcome_def Let_def split: prod.splits bool.splits sum.splits)

lemma length_outcomes: "length (outcomes c e n ps ks st) = length ks"
proof (induction c e n ps ks st rule: outcomes.induct)
  case (1 c e n ps st)
  show ?case by simp
next
  case (2 c e n ps k ks st)
  let ?i = "next_pick n ps (length (k # ks))"
  have i: "?i < length (k # ks)" by (rule next_pick_less) simp
  from "2.IH" [OF refl] length_remove_nth_eq [OF i] show ?case
    by (simp add: Let_def)
qed

lemma run_pool_ok_by_outcomes:
  "ok_counter (run_pool c e n ps ks st)
     = ok_counter st + int (count_list (outcomes c e n ps ks st) Skipped)
       + int (count_list (outcomes c e n ps ks st) Succeeded)"
proof (induction c e n ps ks st rule: run_pool.induct)
  case (1 c e n ps st)
  show ?case by simp
next
  case (2 c e n ps k ks st)
  let ?i = "next_pick n ps (length (k # ks))"
  from "2.IH" [OF refl] worker_ok_by_outcome [of c e "(k # ks) ! ?i" st] show ?case
    by (simp add: Let_def)
qed

text \<open>
  C5. When \<open>skip_existing\<close> is set and the existence gate finds the destination key, the
  task's outcome is Skipped: the worker adds one to the succeeded counter, leaves the
  failed counter and the store as they are, and issues no call to the store but the probe,
  so the rewriter is not invoked; it prints the start line and at most a progress line.
  The Skipped outcomes are exactly those of the tasks for which the gate answers true. And
  whenever the lister returns a list of keys, \<open>repack_prefix\<close> returns a pair
  \<open>(succeeded, failed)\<close> in which \<open>succeeded\<close> is the number of the run's tasks with
  outcome Skipped plus the number with outcome Succeeded, and \<open>failed\<close> counts the rest
  of the tasks, one task for each key.
\<close>

theorem skipped_counted_as_succeeded:
  "(skip_existing c
      \<and> fst (should_skip_existing e (world st) (dst_bucket c)
               (map_key (src_prefix c) (dst_prefix c) k) True)
    \<longrightarrow> task_outcome c e k st = Skipped
       \<and> ok_counter (worker c e k st) = ok_counter st + 1
       \<and> err_counter (worker c e k st) = err_counter st
       \<and> store (world (worker c e k st)) = store (world st)
       \<and> calls (world (worker c e k st))
           = calls (world st) @ [HeadObject (dst_bucket c) (map_key (src_prefix c) (dst_prefix c) k)]
       \<and> out (worker c e k st)
           = out (report_progress c
                   (st\<lparr>ok_counter := ok_counter st + 1,
                       out := out st @ [FileStart k (map_key (src_prefix c) (dst_prefix c) k)]\<rparr>)))
   \<and> (task_outcome c e k st = Skipped)
       = fst (should_skip_existing e (world st) (dst_bucket c)
                (map_key (src_prefix c) (dst_prefix c) k) (skip_existing c))
   \<and> (fst (list_parquet_keys e w sb (normalize_prefix sp) file_extensions) = Inr keys
    \<longrightarrow> (\<exists>ok err fin.
           repack_prefix e w sb sp db dp mw n skip = Inr ((ok, err), fin)
           \<and> length (run_outcomes e w sb sp db dp mw n skip) = length keys
           \<and> ok = int (count_list (run_outcomes e w sb sp db dp mw n skip) Skipped)
                  + int (count_list (run_outcomes e w sb sp db dp mw n skip) Succeeded)
           \<and> ok + err = int (length (run_outcomes e w sb sp db dp mw n skip))))"
proof (intro conjI impI)
  assume h: "skip_existing c
      \<and> fst (should_skip_existing e (world st) (dst_bucket c)
               (map_key (src_prefix c) (dst_prefix c) k) True)"
  then have a: "skip_existing c"
    and b: "fst (should_skip_existing e (world st) (dst_bucket c)
               (map_key (src_prefix c) (dst_prefix c) k) True)"
    by simp_all
  from a b show "task_outcome c e k st = Skipped"
    by (simp add: task_outcome_skipped_iff)
  from worker_skip_path [OF a b]
  show "ok_counter (worker c e k st) = ok_counter st + 1"
    and "err_counter (worker c e k st) = err_counter st"
    and "store (world (worker c e k st)) = store (world st)"
    and "calls (world (worker c e k st))
           = calls (world st) @ [HeadObject (dst_bucket c) (map_key (src_prefix c) (dst_prefix c) k)]"
    and "out (worker c e k st)
           = out (report_progress c
                   (st\<lparr>ok_counter := ok_counter st + 1,
                       out := out st @ [FileStart k (map_key (src_prefix c) (dst_prefix c) k)]\<rparr>))"
    by simp_all
next
  show "(task_outcome c e k st = Skipped)
       = fst (should_skip_existing e (world st) (dst_bucket c)
                (map_key (src_prefix c) (dst_prefix c) k) (skip_existing c))"
    by (rule task_outcome_skipped_iff)
next
  assume l: "fst (list_parquet_keys e w sb (normalize_prefix sp) file_extensions) = Inr keys"
  obtain w' where lk:
      "list_parquet_keys e w sb (normalize_prefix sp) file_extensions = (Inr keys, w')"
    using l by (cases "list_parquet_keys e w sb (normalize_prefix sp) file_extensions") simp
  let ?os = "run_outcomes e w sb sp db dp mw n skip"
  show "\<exists>ok err fin.
           repack_prefix e w sb sp db dp mw n skip = Inr ((ok, err), fin)
           \<and> length ?os = length keys
           \<and> ok = int (count_list ?os Skipped) + int (count_list ?os Succeeded)
           \<and> ok + err = int (length ?os)"
  proof (cases "keys = []")
    case True
    then show ?thesis
      by (simp add: repack_prefix_def run_outcomes_def Let_def lk)
  next
    case False
    define cf where "cf = \<lparr>src_bucket = sb, src_prefix = normalize_prefix sp,
        dst_bucket = db, dst_prefix = normalize_prefix dp, batch_size = n, skip_existing = skip,
        total = int (length keys), progress_step = max 1 (int (length keys) div 10)\<rparr>"
    define st1 where "st1 = emit (Starting (int (length keys))
        (effective_workers mw (cpu_count e)) n)
        \<lparr>world = w', ok_counter = 0, err_counter = 0, out = []\<rparr>"
    define nw where "nw = nat (effective_workers mw (cpu_count e))"
    define st2 where "st2 = run_pool cf e nw (picks e) keys st1"
    have run: "repack_prefix e w sb sp db dp mw n skip
        = Inr ((ok_counter st2, err_counter st2),
               emit (Finished (ok_counter st2) (err_counter st2)) st2)"
      using False by (simp add: repack_prefix_def Let_def lk cf_def st1_def st2_def nw_def)
    have os: "?os = outcomes cf e nw (picks e) keys st1"
      using False by (simp add: run_outcomes_def Let_def lk cf_def st1_def nw_def)
    have start: "ok_counter st1 = 0" "err_counter st1 = 0"
      by (simp_all add: st1_def)
    have len: "length ?os = length keys"
      by (simp add: os length_outcomes)
    have ok: "ok_counter st2 = int (count_list ?os Skipped) + int (count_list ?os Succeeded)"
      unfolding st2_def os by (simp add: run_pool_ok_by_outcomes start)
    have total: "ok_counter st2 + err_counter st2 = int (length ?os)"
      unfolding st2_def len by (simp add: run_pool_sum start)
    from run len ok total show ?thesis by blast
  qed
qed

lemma demo_run_outcomes:
  "run_outcomes demo_env demo_world ''in'' ''src'' ''out'' ''dst'' None 2 True
     = [Skipped,
        Failed (TypeError ''rewrite_repack_streaming() got an unexpected keyword argument s3fs'')]"
  by code_simp

theorem skipped_counted_as_succeeded_witness:
  "skip_existing demo_cfg
   \<and> fst (should_skip_existing demo_env (world demo_state) (dst_bucket demo_cfg)
            (map_key (src_prefix demo_cfg) (dst_prefix demo_cfg) ''src/B.PARQ'') True)
   \<and> fst (list_parquet_keys demo_env demo_world ''in'' (normalize_prefix ''src'') file_extensions)
       = Inr [''src/a.parquet'', ''src/B.PARQ'']
   \<and> task_outcome demo_cfg demo_env ''src/B.PARQ'' demo_state = Skipped
   \<and> ok_counter (worker demo_cfg demo_env ''src/B.PARQ'' demo_state) = ok_counter demo_state + 1
   \<and> err_counter (worker demo_cfg demo_env ''src/B.PARQ'' demo_state) = err_counter demo_state
   \<and> store (world (worker demo_cfg demo_env ''src/B.PARQ'' demo_state)) = store (world demo_state)
   \<and> calls (world (worker demo_cfg demo_env ''src/B.PARQ'' demo_state))
       = calls (world demo_state)
         @ [HeadObject (dst_bucket demo_cfg)
              (map_key (src_prefix demo_cfg) (dst_prefix demo_cfg) ''src/B.PARQ'')]
   \<and> (\<exists>ok err fin.
         repack_prefix demo_env demo_world ''in'' ''src'' ''out'' ''dst'' None 2 True
           = Inr ((ok, err), fin)
         \<and> ok = int (count_list
                       (run_outcomes demo_env demo_world ''in'' ''src'' ''out'' ''dst'' None 2 True)
                       Skipped)
                + int (count_list
                       (run_outcomes demo_env demo_world ''in'' ''src'' ''out'' ''dst'' None 2 True)
                       Succeeded)
         \<and> ok = 1 \<and> err = 1)"
proof -
  have a: "skip_existing demo_cfg" by code_simp
  have b: "fst (should_skip_existing demo_env (world demo_state) (dst_bucket demo_cfg)
            (map_key (src_prefix demo_cfg) (dst_prefix demo_cfg) ''src/B.PARQ'') True)"
    by code_simp
  have l: "fst (list_parquet_keys demo_env demo_world ''in'' (normalize_prefix ''src'')
             file_extensions) = Inr [''src/a.parquet'', ''src/B.PARQ'']"
    by code_simp
  note t = skipped_counted_as_succeeded [of demo_cfg demo_env demo_state "''src/B.PARQ''"
      demo_world "''in''" "''src''" "[''src/a.parquet'', ''src/B.PARQ'']" "''out''" "''dst''"
      None 2 True]
  from t a b have w: "task_outcome demo_cfg demo_env ''src/B.PARQ'' demo_state = Skipped
     \<and> ok_counter (worker demo_cfg demo_env ''src/B.PARQ'' demo_state) = ok_counter demo_state + 1
     \<and> err_counter (worker demo_cfg demo_env ''src/B.PARQ'' demo_state) = err_counter demo_state
     \<and> store (world (worker demo_cfg demo_env ''src/B.PARQ'' demo_state))
         = store (world demo_state)
     \<and> calls (world (worker demo_cfg demo_env ''src/B.PARQ'' demo_state))
         = calls (world demo_state)
           @ [HeadObject (dst_bucket demo_cfg)
                (map_key (src_prefix demo_cfg) (dst_prefix demo_cfg) ''src/B.PARQ'')]"
    by simp
  let ?os = "run_outcomes demo_env demo_world ''in'' ''src'' ''out'' ''dst'' None 2 True"
  from t l obtain ok err fin where
      r: "repack_prefix demo_env demo_world ''in'' ''src'' ''out'' ''dst'' None 2 True
            = Inr ((ok, err), fin)"
      and c: "ok = int (count_list ?os Skipped) + int (count_list ?os Succeeded)"
      and s: "ok + err = int (length ?os)"
    by blast
  from c have ok1: "ok = 1" by (simp add: demo_run_outcomes)
  from s ok1 have err1: "err = 1" by (simp add: demo_run_outcomes)
  from r c ok1 err1 have x: "\<exists>ok err fin.
         repack_prefix demo_env demo_world ''in'' ''src'' ''out'' ''dst'' None 2 True
           = Inr ((ok, err), fin)
         \<and> ok = int (count_list ?os Skipped) + int (count_list ?os Succeeded)
         \<and> ok = 1 \<and> err = 1"
    by blast
  note w1 = w [THEN conjunct1]
  note w2 = w [THEN conjunct2, THEN conjunct1]
  note w3 = w [THEN conjunct2, THEN conjunct2, THEN conjunct1]
  note w4 = w [THEN conjunct2, THEN conjunct2, THEN conjunct2, THEN conjunct1]
  note w5 = w [THEN conjunct2, THEN conjunct2, THEN conjunct2, THEN conjunct2]
  show ?thesis
    by (rule conjI [OF a conjI [OF b conjI [OF l conjI [OF w1 conjI [OF w2 conjI [OF w3
          conjI [OF w4 conjI [OF w5 x]]]]]]]])
qed

section \<open>Properties of the orchestrator and of the command line\<close>

text \<open>
  C8. When the lister returns no key, \<open>repack_prefix\<close> returns \<open>(0, 0)\<close>, not an error;
  it runs no task (the only line printed is the one saying there is nothing to do), the
  store is unchanged and the only call issued to it is the listing.
\<close>

theorem repack_prefix_empty:
  assumes "fst (list_parquet_keys e w sb (normalize_prefix sp) file_extensions) = Inr []"
  shows "\<exists>st. repack_prefix e w sb sp db dp mw n skip = Inr ((0, 0), st)
           \<and> store (world st) = store w
           \<and> calls (world st) = calls w @ [ListObjectsV2 sb (normalize_prefix (normalize_prefix sp))]
           \<and> out st = [NothingToDo] \<and> ok_counter st = 0 \<and> err_counter st = 0"
  using assms
  by (auto simp: repack_prefix_def list_parquet_keys_def Let_def emit_def split: sum.splits)

theorem repack_prefix_empty_witness:
  "fst (list_parquet_keys demo_env demo_world ''in'' (normalize_prefix ''other'') file_extensions)
     = Inr []
   \<and> (\<exists>st. repack_prefix demo_env demo_world ''in'' ''other'' ''out'' ''dst'' (Some 4) 2 False
              = Inr ((0, 0), st)
           \<and> store (world st) = store demo_world
           \<and> calls (world st) = calls demo_world
               @ [ListObjectsV2 ''in'' (normalize_prefix (normalize_prefix ''other''))]
           \<and> out st = [NothingToDo] \<and> ok_counter st = 0 \<and> err_counter st = 0)"
proof -
  have h: "fst (list_parquet_keys demo_env demo_world ''in'' (normalize_prefix ''other'')
             file_extensions) = Inr []"
    by code_simp
  from h repack_prefix_empty [OF h] show ?thesis by (rule conjI)
qed

text \<open>
  C9. When \<open>main\<close> returns, both URIs were parsed and the pipeline returned a pair
  \<open>(ok, err)\<close>; the exit code is 0 exactly when \<open>err\<close> is 0, and it is 2 when \<open>err\<close> is
  1 or more.
\<close>

theorem main_exit_code:
  assumes "main e w a = Inr (code, st)"
  shows "\<exists>sb sp db dp ok err st0.
           parse_s3_uri (arg_src a) = Inr (sb, sp) \<and> parse_s3_uri (arg_dst a) = Inr (db, dp)
           \<and> repack_prefix e w sb sp db dp (Some (arg_workers a)) (arg_batch_size a)
                (\<not> arg_no_skip_existing a) = Inr ((ok, err), st0)
           \<and> (code = 0) = (err = 0) \<and> (1 \<le> err \<longrightarrow> code = 2) \<and> (code = 0 \<or> code = 2)"
  using assms
  by (auto simp: main_def split: sum.splits prod.splits if_splits)


theorem main_exit_code_witness:
  "main demo_env demo_world demo_args =
     Inr (2, \<lparr>world = \<lparr>store = store demo_world,
                        calls = [ListObjectsV2 ''in'' ''src/'', HeadObject ''out'' ''dst/B.PARQ'',
                                 HeadObject ''out'' ''dst/a.parquet'']\<rparr>,
              ok_counter = 1, err_counter = 1,
              out = [Starting 2 8 2, FileStart ''src/B.PARQ'' ''dst/B.PARQ'', Progress 1 2,
                     FileStart ''src/a.parquet'' ''dst/a.parquet'', Progress 2 2,
                     TaskError ''src/a.parquet'' ''dst/a.parquet''
                       (TypeError
                          ''rewrite_repack_streaming() got an unexpected keyword argument s3fs''),
                     Finished 1 1, Completed 1 1]\<rparr>)
   \<and> (\<exists>sb sp db dp ok err st0.
           parse_s3_uri (arg_src demo_args) = Inr (sb, sp)
           \<and> parse_s3_uri (arg_dst demo_args) = Inr (db, dp)
           \<and> repack_prefix demo_env demo_world sb sp db dp (Some (arg_workers demo_args))
                (arg_batch_size demo_args) (\<not> arg_no_skip_existing demo_args)
                = Inr ((ok, err), st0)
           \<and> ((2::int) = 0) = (err = 0))"
proof -
  have h: "main demo_env demo_world demo_args =
     Inr (2, \<lparr>world = \<lparr>store = store demo_world,
                        calls = [ListObjectsV2 ''in'' ''src/'', HeadObject ''out'' ''dst/B.PARQ'',
                                 HeadObject ''out'' ''dst/a.parquet'']\<rparr>,
              ok_counter = 1, err_counter = 1,
              out = [Starting 2 8 2, FileStart ''src/B.PARQ'' ''dst/B.PARQ'', Progress 1 2,
                     FileStart ''src/a.parquet'' ''dst/a.parquet'', Progress 2 2,
                     TaskError ''src/a.parquet'' ''dst/a.parquet''
                       (TypeError
                          ''rewrite_repack_streaming() got an unexpected keyword argument s3fs''),
                     Finished 1 1, Completed 1 1]\<rparr>)"
    by code_simp
  from main_exit_code [OF h] obtain sb sp db dp ok err st0 where
      "parse_s3_uri (arg_src demo_args) = Inr (sb, sp)"
      "parse_s3_uri (arg_dst demo_args) = Inr (db, dp)"
      "repack_prefix demo_env demo_world sb sp db dp (Some (arg_workers demo_args))
         (arg_batch_size demo_args) (\<not> arg_no_skip_existing demo_args) = Inr ((ok, err), st0)"
      "((2::int) = 0) = (err = 0)"
    by blast
  then have "\<exists>sb sp db dp ok err st0.
           parse_s3_uri (arg_src demo_args) = Inr (sb, sp)
           \<and> parse_s3_uri (arg_dst demo_args) = Inr (db, dp)
           \<and> repack_prefix demo_env demo_world sb sp db dp (Some (arg_workers demo_args))
                (arg_batch_size demo_args) (\<not> arg_no_skip_existing demo_args)
                = Inr ((ok, err), st0)
           \<and> ((2::int) = 0) = (err = 0)"
    by (intro exI conjI)
  with h show ?thesis by (rule conjI)
qed

section \<open>Properties of the rewriter\<close>

lemma write_batches_append:
  "write_batches wr bs = wr\<lparr>row_groups := row_groups wr @ bs\<rparr>"
  by (induction bs arbitrary: wr) (simp_all add: write_batch_def)

lemma get_put_object: "get_object (put_object w b k obj) b k = Some obj"
  by (simp add: get_object_def put_object_def update_conv')

lemma concat_chunk: "0 < n \<Longrightarrow> concat (chunk n xs) = xs"
proof (induction n xs rule: chunk.induct)
  case (1 n xs)
  show ?case
  proof (cases "xs = []")
    case True
    then show ?thesis by (simp add: chunk.simps)
  next
    case False
    with 1 have "concat (chunk n (drop n xs)) = drop n xs" by simp
    with False 1(2) show ?thesis
      by (subst chunk.simps) simp
  qed
qed

text \<open>
  C3. Let the codec's iterator, for any batch size of at least 1, yield batches whose rows
  in order are the rows of the file it reads. Then for every source object and every batch
  size \<open>n\<close> of at least 1, a rewrite that completes has written to the destination key a
  file with the schema of the source and, as its row groups, the batches read from the
  source in their order; decoding it gives the schema and the rows of the source, which do
  not depend on \<open>n\<close>.
\<close>

theorem rewrite_round_trip:
  assumes "1 \<le> n"
    and "\<forall>m f bs. 1 \<le> m \<longrightarrow> iter_batches e m f = Inr bs \<longrightarrow> concat bs = concat (row_groups f)"
    and "get_object w sb sk = Some src"
    and "fst (rewrite_repack_streaming e w sb sk db dk n) = Inr ()"
  shows "\<exists>pf bs dst. body src = Parquet pf \<and> iter_batches e n pf = Inr bs
           \<and> get_object (snd (rewrite_repack_streaming e w sb sk db dk n)) db dk = Some dst
           \<and> body dst = Parquet \<lparr>schema_arrow = schema_arrow pf, row_groups = bs\<rparr>
           \<and> decode (body dst) = Inr (schema_arrow pf, concat (row_groups pf))
           \<and> decode (body dst) = decode (body src)"
proof -
  from assms(3,4) obtain pf where pf: "body src = Parquet pf"
    by (cases "body src")
       (auto simp: rewrite_repack_streaming_def download_file_def issue_def get_object_def
          ParquetFile_def split: option.splits)
  from assms(3,4) pf obtain bs where bs: "iter_batches e n pf = Inr bs"
    by (cases "iter_batches e n pf")
       (auto simp: rewrite_repack_streaming_def download_file_def issue_def get_object_def
          ParquetFile_def Let_def split: option.splits)
  from assms(1,2) bs have rows: "concat bs = concat (row_groups pf)"
    by blast
  let ?out = "\<lparr>schema_arrow = schema_arrow pf, row_groups = bs\<rparr>"
  let ?dst = "\<lparr>body = Parquet ?out, content_type = None\<rparr>"
  from assms(3,4) pf bs
  have "get_object (snd (rewrite_repack_streaming e w sb sk db dk n)) db dk = Some ?dst"
    by (auto simp: rewrite_repack_streaming_def download_file_def upload_file_def issue_def
          get_object_def put_object_def ParquetFile_def ParquetWriter_def Let_def
          write_batches_append update_conv' split: option.splits)
  moreover have "decode (body ?dst) = Inr (schema_arrow pf, concat (row_groups pf))"
    by (simp add: decode_def rows)
  moreover have "decode (body ?dst) = decode (body src)"
    by (simp add: decode_def rows pf)
  ultimately show ?thesis using pf bs by (intro exI [of _ pf] exI [of _ bs] exI [of _ ?dst]) simp
qed

lemma demo_codec_reads_all_rows:
  "\<forall>m f bs. 1 \<le> m \<longrightarrow> iter_batches demo_env m f = Inr bs \<longrightarrow> concat bs = concat (row_groups f)"
  by (auto simp: demo_env_def concat_chunk)

theorem rewrite_round_trip_witness:
  "(1::int) \<le> 2
   \<and> get_object demo_world ''in'' ''src/a.parquet''
       = Some \<lparr>body = Parquet demo_file, content_type = Some ''application/x-parquet''\<rparr>
   \<and> fst (rewrite_repack_streaming demo_env demo_world ''in'' ''src/a.parquet''
            ''out'' ''dst/a.parquet'' 2) = Inr ()
   \<and> (\<exists>pf bs dst.
         body \<lparr>body = Parquet demo_file, content_type = Some ''application/x-parquet''\<rparr>
           = Parquet pf
         \<and> iter_batches demo_env 2 pf = Inr bs
         \<and> get_object (snd (rewrite_repack_streaming demo_env demo_world ''in'' ''src/a.parquet''
                               ''out'' ''dst/a.parquet'' 2)) ''out'' ''dst/a.parquet'' = Some dst
         \<and> body dst = Parquet \<lparr>schema_arrow = schema_arrow pf, row_groups = bs\<rparr>
         \<and> decode (body dst) = Inr (schema_arrow pf, concat (row_groups pf))
         \<and> decode (body dst)
             = decode (body \<lparr>body = Parquet demo_file,
                             content_type = Some ''application/x-parquet''\<rparr>))"
proof -
  have a: "(1::int) \<le> 2" by simp
  have b: "\<forall>m f bs. 1 \<le> m \<longrightarrow> iter_batches demo_env m f = Inr bs
             \<longrightarrow> concat bs = concat (row_groups f)"
    by (rule demo_codec_reads_all_rows)
  have c: "get_object demo_world ''in'' ''src/a.parquet''
       = Some \<lparr>body = Parquet demo_file, content_type = Some ''application/x-parquet''\<rparr>"
    by code_simp
  have d: "fst (rewrite_repack_streaming demo_env demo_world ''in'' ''src/a.parquet''
            ''out'' ''dst/a.parquet'' 2) = Inr ()"
    by code_simp
  show ?thesis
    by (rule conjI [OF a conjI [OF c conjI [OF d rewrite_round_trip [OF a b c d]]]])
qed

lemma demo_rewrite_layout:
  "map_option body
     (get_object (snd (rewrite_repack_streaming demo_env demo_world ''in'' ''src/a.parquet''
                         ''out'' ''dst/a.parquet'' 2)) ''out'' ''dst/a.parquet'')
     = Some (Parquet \<lparr>schema_arrow = [(''id'', ''int64''), (''name'', ''string'')],
                      row_groups = [[[''1'', ''a''], [''2'', ''b'']], [[''3'', ''c''], [''4'', ''d'']]]\<rparr>)"
  by code_simp

section \<open>The call of the rewriter from the worker\<close>

text \<open>
  C1. A task that the existence gate does not skip is recorded as failed even when the rewriter
  completes on it: the call in \<open>_worker\<close> passes the keyword \<open>s3fs\<close>, which
  \<open>rewrite_repack_streaming\<close> does not declare, so the call raises \<open>TypeError\<close> before
  the rewriter runs (\<open>call_with_worker_keywords\<close>). In the example the destination is
  absent, the source is a valid file, no call to the store fails, and the rewriter called
  on the state the existence gate leaves returns without error; the worker still counts a failure,
  prints the \<open>TypeError\<close>, issues no call but the probe and leaves no destination object.
\<close>

theorem worker_rewrite_path_records_failure:
  "fst (should_skip_existing demo_env (world demo_state) ''out'' ''dst/a.parquet'' True) = False
   \<and> fst (rewrite_repack_streaming demo_env
            (snd (should_skip_existing demo_env (world demo_state) ''out'' ''dst/a.parquet'' True))
            ''in'' ''src/a.parquet'' ''out'' ''dst/a.parquet'' 2) = Inr ()
   \<and> ok_counter (worker demo_cfg demo_env ''src/a.parquet'' demo_state) = 0
   \<and> err_counter (worker demo_cfg demo_env ''src/a.parquet'' demo_state) = 1
   \<and> out (worker demo_cfg demo_env ''src/a.parquet'' demo_state)
       = [FileStart ''src/a.parquet'' ''dst/a.parquet'', Progress 1 2,
          TaskError ''src/a.parquet'' ''dst/a.parquet''
            (TypeError ''rewrite_repack_streaming() got an unexpected keyword argument s3fs'')]
   \<and> calls (world (worker demo_cfg demo_env ''src/a.parquet'' demo_state))
       = [HeadObject ''out'' ''dst/a.parquet'']
   \<and> get_object (world (worker demo_cfg demo_env ''src/a.parquet'' demo_state))
        ''out'' ''dst/a.parquet'' = None"
  by code_simp

text \<open>
  The same holds of every task the existence gate does not skip (\<open>worker_not_skipped\<close>), so a run
  without \<open>skip_existing\<close> counts every task as failed and writes nothing.
\<close>

lemma set_remove_nth: "set (remove_nth i xs) \<subseteq> set xs"
  unfolding remove_nth_def by (auto dest: in_set_takeD in_set_dropD)

lemma run_pool_without_skip:
  "\<not> skip_existing c \<Longrightarrow>
     ok_counter (run_pool c e n ps ks st) = ok_counter st
     \<and> err_counter (run_pool c e n ps ks st) = err_counter st + int (length ks)
     \<and> store (world (run_pool c e n ps ks st)) = store (world st)"
proof (induction c e n ps ks st rule: run_pool.induct)
  case (1 c e n ps st)
  show ?case by simp
next
  case (2 c e n ps k ks st)
  let ?i = "next_pick n ps (length (k # ks))"
  let ?k = "(k # ks) ! ?i"
  have i: "?i < length (k # ks)" by (rule next_pick_less) simp
  have len: "int (length (remove_nth ?i (k # ks))) = int (length ks)"
    using length_remove_nth_eq [OF i] by simp
  have ns: "\<not> fst (should_skip_existing e (world st) (dst_bucket c)
                     (map_key (src_prefix c) (dst_prefix c) ?k) (skip_existing c))"
    using "2.prems" by (simp add: should_skip_existing_def)
  note w = worker_not_skipped [OF ns]
  from "2.IH" [OF refl "2.prems"] w len show ?case
    by (simp add: Let_def)
qed

lemma repack_prefix_without_skip:
  assumes "fst (list_parquet_keys e w sb (normalize_prefix sp) file_extensions) = Inr keys"
  shows "map_sum id fst (repack_prefix e w sb sp db dp mw n False) = Inr (0, int (length keys))"
proof -
  obtain w' where lk:
      "list_parquet_keys e w sb (normalize_prefix sp) file_extensions = (Inr keys, w')"
    using assms by (cases "list_parquet_keys e w sb (normalize_prefix sp) file_extensions") simp
  show ?thesis
    by (cases "keys = []") (simp_all add: repack_prefix_def Let_def lk run_pool_without_skip)
qed

section \<open>Runs in which every destination exists\<close>

text \<open>
  With \<open>skip_existing\<close>, no failing call and every destination key present, every task
  is skipped: the run counts all of them as succeeded and leaves the store as it is.
\<close>

lemma worker_gate_true:
  assumes "skip_existing c"
    and "fst (should_skip_existing e (world st) (dst_bucket c)
               (map_key (src_prefix c) (dst_prefix c) k) True)"
  shows "ok_counter (worker c e k st) = ok_counter st + 1"
    and "err_counter (worker c e k st) = err_counter st"
    and "store (world (worker c e k st)) = store (world st)"
  using assms should_skip_existing_store [of e "world st" "dst_bucket c"
      "map_key (src_prefix c) (dst_prefix c) k" True]
  by (auto simp: worker_def Let_def split: prod.splits bool.splits)

lemma gate_true_when_present:
  assumes "\<forall>i. faults e i = None" and "get_object w b k = Some obj"
  shows "fst (should_skip_existing e w b k True)"
  using assms by (simp add: should_skip_existing_def head_object_def issue_def get_object_def)

lemma run_pool_all_existing:
  assumes "skip_existing c" and "\<forall>i. faults e i = None"
  shows "\<forall>k\<in>set ks. get_object (world st) (dst_bucket c)
                        (map_key (src_prefix c) (dst_prefix c) k) \<noteq> None
     \<Longrightarrow> ok_counter (run_pool c e n ps ks st) = ok_counter st + int (length ks)
       \<and> err_counter (run_pool c e n ps ks st) = err_counter st
       \<and> store (world (run_pool c e n ps ks st)) = store (world st)"
  using assms
proof (induction c e n ps ks st rule: run_pool.induct)
  case (1 c e n ps st)
  show ?case by simp
next
  case (2 c e n ps k ks st)
  let ?i = "next_pick n ps (length (k # ks))"
  let ?k = "(k # ks) ! ?i"
  let ?st = "worker c e ?k st"
  have i: "?i < length (k # ks)" by (rule next_pick_less) simp
  have len: "int (length (remove_nth ?i (k # ks))) = int (length ks)"
    using length_remove_nth_eq [OF i] by simp
  have mem: "?k \<in> set (k # ks)" using i by (rule nth_mem)
  with "2.prems"(1) obtain obj where
      "get_object (world st) (dst_bucket c) (map_key (src_prefix c) (dst_prefix c) ?k) = Some obj"
    by blast
  with "2.prems"(3) have gate: "fst (should_skip_existing e (world st) (dst_bucket c)
               (map_key (src_prefix c) (dst_prefix c) ?k) True)"
    by (rule gate_true_when_present)
  note w = worker_gate_true [OF "2.prems"(2) gate]
  have rest: "\<forall>k'\<in>set (remove_nth ?i (k # ks)).
      get_object (world ?st) (dst_bucket c) (map_key (src_prefix c) (dst_prefix c) k') \<noteq> None"
    using "2.prems"(1) set_remove_nth [of ?i "k # ks"] w(3)
    by (auto simp: get_object_def)
  from "2.IH" [OF refl rest "2.prems"(2,3)] w len show ?case
    by (simp add: Let_def)
qed

lemma list_parquet_keys_store:
  "store (snd (list_parquet_keys e w b p exts)) = store w"
  by (simp add: list_parquet_keys_def Let_def split: sum.splits)

lemma repack_prefix_all_skipped:
  assumes "fst (list_parquet_keys e w sb (normalize_prefix sp) file_extensions) = Inr keys"
    and "\<forall>i. faults e i = None"
    and "\<forall>k\<in>set keys. get_object w db
            (map_key (normalize_prefix sp) (normalize_prefix dp) k) \<noteq> None"
  shows "map_sum id fst (repack_prefix e w sb sp db dp mw n True) = Inr (int (length keys), 0)"
proof -
  obtain w' where lk:
      "list_parquet_keys e w sb (normalize_prefix sp) file_extensions = (Inr keys, w')"
    using assms(1)
    by (cases "list_parquet_keys e w sb (normalize_prefix sp) file_extensions") simp
  have st: "store w' = store w"
    using list_parquet_keys_store [of e w sb "normalize_prefix sp" file_extensions]
    by (simp add: lk)
  define c where "c = \<lparr>src_bucket = sb, src_prefix = normalize_prefix sp,
      dst_bucket = db, dst_prefix = normalize_prefix dp, batch_size = n, skip_existing = True,
      total = int (length keys), progress_step = max 1 (int (length keys) div 10)\<rparr>"
  define st1 where "st1 = emit (Starting (int (length keys))
      (effective_workers mw (cpu_count e)) n)
      \<lparr>world = w', ok_counter = 0, err_counter = 0, out = []\<rparr>"
  have pre: "\<forall>k\<in>set keys. get_object (world st1) (dst_bucket c)
                (map_key (src_prefix c) (dst_prefix c) k) \<noteq> None"
    using assms(3) by (simp add: c_def st1_def get_object_def st)
  have sk: "skip_existing c" by (simp add: c_def)
  note r = run_pool_all_existing [OF sk assms(2) pre,
      of "nat (effective_workers mw (cpu_count e))" "picks e"]
  show ?thesis
  proof (cases "keys = []")
    case True
    then show ?thesis by (simp add: repack_prefix_def Let_def lk)
  next
    case False
    with r show ?thesis
      by (simp add: repack_prefix_def Let_def lk c_def [symmetric] st1_def [symmetric])
         (simp add: st1_def)
  qed
qed

section \<open>The pool size of a run, and the lister's filter\<close>

text \<open>
  The worker count is positive, so the pool can be created, and a run with at least one
  key prints it in its first line: it is the count \<open>effective_workers\<close> gives.
\<close>

lemma effective_workers_positive: "0 < effective_workers mw cc"
  by (auto simp: effective_workers_def default_workers_def Let_def split: option.splits)

lemma report_progress_out: "\<exists>evs. out (report_progress c st) = out st @ evs"
  by (simp add: report_progress_def Let_def)

lemma worker_out: "\<exists>evs. out (worker c e k st) = out st @ evs"
  unfolding worker_def Let_def
  by (auto split: prod.splits bool.splits sum.splits simp: report_progress_def Let_def)

lemma run_pool_out: "\<exists>evs. out (run_pool c e n ps ks st) = out st @ evs"
proof (induction c e n ps ks st rule: run_pool.induct)
  case (1 c e n ps st)
  show ?case by simp
next
  case (2 c e n ps k ks st)
  let ?i = "next_pick n ps (length (k # ks))"
  from "2.IH" [OF refl] obtain evs where
    a: "out (run_pool c e n (tl ps) (remove_nth ?i (k # ks)) (worker c e ((k # ks) ! ?i) st))
          = out (worker c e ((k # ks) ! ?i) st) @ evs"
    by blast
  from worker_out [of c e "(k # ks) ! ?i" st] obtain evs' where
    b: "out (worker c e ((k # ks) ! ?i) st) = out st @ evs'"
    by blast
  have "out (run_pool c e n ps (k # ks) st) = out st @ (evs' @ evs)"
    using a b by (simp add: Let_def)
  then show ?case by blast
qed

lemma repack_prefix_pool_size:
  assumes "fst (list_parquet_keys e w sb (normalize_prefix sp) file_extensions) = Inr keys"
    and "keys \<noteq> []"
  shows "\<exists>r st evs. repack_prefix e w sb sp db dp mw n skip = Inr (r, st)
           \<and> out st = Starting (int (length keys)) (effective_workers mw (cpu_count e)) n # evs"
proof -
  obtain w' where lk:
      "list_parquet_keys e w sb (normalize_prefix sp) file_extensions = (Inr keys, w')"
    using assms(1)
    by (cases "list_parquet_keys e w sb (normalize_prefix sp) file_extensions") simp
  define c where "c = \<lparr>src_bucket = sb, src_prefix = normalize_prefix sp,
      dst_bucket = db, dst_prefix = normalize_prefix dp, batch_size = n, skip_existing = skip,
      total = int (length keys), progress_step = max 1 (int (length keys) div 10)\<rparr>"
  define st1 where "st1 = emit (Starting (int (length keys))
      (effective_workers mw (cpu_count e)) n)
      \<lparr>world = w', ok_counter = 0, err_counter = 0, out = []\<rparr>"
  from run_pool_out [of c e "nat (effective_workers mw (cpu_count e))" "picks e" keys st1]
  obtain evs where "out (run_pool c e (nat (effective_workers mw (cpu_count e))) (picks e) keys st1)
      = Starting (int (length keys)) (effective_workers mw (cpu_count e)) n # evs"
    by (auto simp: st1_def)
  with assms(2) show ?thesis
    by (simp add: repack_prefix_def Let_def lk c_def [symmetric] st1_def [symmetric])
qed

text \<open>The extension filter on one page: the two columnar files are kept, the text file is not.\<close>

lemma page_keys_scenario:
  "page_keys file_extensions (Some [''a/1.parquet'', ''a/2.parq'', ''a/readme.txt''])
     = [''a/1.parquet'', ''a/2.parq'']"
  by code_simp

end
